theory Spec2Isabelle
  imports Complex_Main "HOL-Library.Word"
begin

section \<open>WALLY-S navigation and motion control\<close>

text \<open>
  A shallow embedding of the control code of the WALLY-S robot: the PID controller
  (\<^verbatim>\<open>pid.c\<close>), the geodesy of \<^verbatim>\<open>gps.c\<close>, the heading filter of
  \<^verbatim>\<open>magnetometer.c\<close>, the coordinate parser of \<^verbatim>\<open>bluetooth.c\<close> and one pass of
  the main loop of \<^verbatim>\<open>integration_test\<close> (\<^verbatim>\<open>WALLY_S.c\<close>).

  Conventions. A C \<^verbatim>\<open>double\<close> is a \<^typ>\<open>real\<close>: arithmetic is exact, and rounding,
  infinities and NaN are outside the model. \<^verbatim>\<open>uint32_t\<close> is \<^typ>\<open>32 word\<close>,
  \<^verbatim>\<open>int16_t\<close> is \<^typ>\<open>16 word\<close> read with \<^const>\<open>sint\<close>. Module-level statics become
  fields of explicit state records, and every reading of the outside world (the
  microsecond counter \<^verbatim>\<open>time_us_32\<close>, the I2C bus, the UARTs) is an argument.
  Pointer arguments are valid: the \<^verbatim>\<open>NULL\<close> guards of the source are excluded by the
  types.
\<close>

subsection \<open>pid.h, pid.c\<close>

record pid_controller_t =
  kp :: real
  ki :: real
  kd :: real
  setpoint :: real
  last_input :: real
  integral_sum :: real
  output_min :: real
  output_max :: real
  last_time :: "32 word"
  initialized :: bool

text \<open>\<^verbatim>\<open>pid_init\<close>; the last argument is the value read from \<^verbatim>\<open>time_us_32()\<close>.\<close>

definition pid_init ::
  "real \<Rightarrow> real \<Rightarrow> real \<Rightarrow> real \<Rightarrow> real \<Rightarrow> 32 word \<Rightarrow> pid_controller_t" where
  "pid_init p i d omin omax now =
     \<lparr>kp = p, ki = i, kd = d, setpoint = 0, last_input = 0, integral_sum = 0,
      output_min = omin, output_max = omax, last_time = now, initialized = True\<rparr>"

definition pid_set_setpoint :: "pid_controller_t \<Rightarrow> real \<Rightarrow> pid_controller_t" where
  "pid_set_setpoint pid sp = (if \<not> initialized pid then pid else pid\<lparr>setpoint := sp\<rparr>)"

text \<open>
  The elapsed time of \<^verbatim>\<open>pid_compute\<close>:
  \<^verbatim>\<open>double dt = (current_time - pid->last_time) / 1000000.0;\<close>
  The subtraction is the unsigned 32-bit one and wraps; its result is then converted.
\<close>

definition pid_dt :: "32 word \<Rightarrow> 32 word \<Rightarrow> real" where
  "pid_dt current_time previous = real (unat (current_time - previous)) / 1000000"

text \<open>
  \<^verbatim>\<open>pid_compute\<close> returns the output and the controller as it leaves it. The two
  early returns give \<^verbatim>\<open>0.0\<close> and touch nothing.
\<close>

definition pid_compute ::
  "pid_controller_t \<Rightarrow> real \<Rightarrow> 32 word \<Rightarrow> real \<times> pid_controller_t" where
  "pid_compute pid input current_time =
     (if \<not> initialized pid then (0, pid)
      else
        let dt = pid_dt current_time (last_time pid) in
        if dt \<le> 0 then (0, pid)
        else
          let error = setpoint pid - input;
              proportional = kp pid * error;
              pid1 = pid\<lparr>integral_sum := integral_sum pid + error * dt\<rparr>;
              integral = ki pid1 * integral_sum pid1;
              derivative = kd pid1 * (input - last_input pid1) / dt;
              output = proportional + integral - derivative;
              (output', pid2) =
                (if output > output_max pid1 then
                   (output_max pid1,
                    if ki pid1 \<noteq> 0 then
                      let integral_max = (output_max pid1 - proportional + derivative) / ki pid1
                      in if integral_sum pid1 > integral_max
                         then pid1\<lparr>integral_sum := integral_max\<rparr> else pid1
                    else pid1)
                 else if output < output_min pid1 then
                   (output_min pid1,
                    if ki pid1 \<noteq> 0 then
                      let integral_min = (output_min pid1 - proportional + derivative) / ki pid1
                      in if integral_sum pid1 < integral_min
                         then pid1\<lparr>integral_sum := integral_min\<rparr> else pid1
                    else pid1)
                 else (output, pid1))
          in (output', pid2\<lparr>last_input := input, last_time := current_time\<rparr>))"

definition pid_reset :: "pid_controller_t \<Rightarrow> 32 word \<Rightarrow> pid_controller_t" where
  "pid_reset pid now =
     (if \<not> initialized pid then pid
      else pid\<lparr>integral_sum := 0, last_input := 0, last_time := now\<rparr>)"

definition pid_tune ::
  "pid_controller_t \<Rightarrow> real \<Rightarrow> real \<Rightarrow> real \<Rightarrow> 32 word \<Rightarrow> pid_controller_t" where
  "pid_tune pid p i d now =
     (if \<not> initialized pid then pid
      else pid_reset (pid\<lparr>kp := p, ki := i, kd := d\<rparr>) now)"

definition pid_set_output_limits ::
  "pid_controller_t \<Rightarrow> real \<Rightarrow> real \<Rightarrow> pid_controller_t" where
  "pid_set_output_limits pid omin omax =
     (if \<not> initialized pid then pid
      else
        let pid1 = pid\<lparr>output_min := omin, output_max := omax\<rparr> in
        if ki pid1 \<noteq> 0 then
          let max_integral = output_max pid1 / ki pid1;
              min_integral = output_min pid1 / ki pid1
          in if integral_sum pid1 > max_integral then pid1\<lparr>integral_sum := max_integral\<rparr>
             else if integral_sum pid1 < min_integral then pid1\<lparr>integral_sum := min_integral\<rparr>
             else pid1
        else pid1)"

text \<open>
  \<^verbatim>\<open>pid_heading_error\<close>: two \<^verbatim>\<open>while\<close> loops, one after the other. Over the reals
  each of them ends, which the termination proofs show.
\<close>

function heading_error_sub :: "real \<Rightarrow> real" where
  "heading_error_sub error = (if error > 180 then heading_error_sub (error - 360) else error)"
  by pat_completeness auto
termination
proof (relation "measure (\<lambda>e. nat \<lceil>(e - 180) / 360\<rceil>)")
  show "wf (measure (\<lambda>e. nat \<lceil>(e - 180) / 360\<rceil>))" by simp
next
  fix error :: real
  assume h: "180 < error"
  have e: "(error - 360 - 180) / 360 = (error - 180) / 360 - 1" by (simp add: field_simps)
  have "0 < (error - 180) / 360" using h by simp
  then have "0 < \<lceil>(error - 180) / 360\<rceil>" by simp
  moreover have "\<lceil>(error - 360 - 180) / 360\<rceil> = \<lceil>(error - 180) / 360\<rceil> - 1"
    unfolding e by simp
  ultimately show "(error - 360, error) \<in> measure (\<lambda>e. nat \<lceil>(e - 180) / 360\<rceil>)"
    by simp
qed

function heading_error_add :: "real \<Rightarrow> real" where
  "heading_error_add error = (if error < - 180 then heading_error_add (error + 360) else error)"
  by pat_completeness auto
termination
proof (relation "measure (\<lambda>e. nat \<lceil>(- 180 - e) / 360\<rceil>)")
  show "wf (measure (\<lambda>e. nat \<lceil>(- 180 - e) / 360\<rceil>))" by simp
next
  fix error :: real
  assume h: "error < - 180"
  have e: "(- 180 - (error + 360)) / 360 = (- 180 - error) / 360 - 1" by (simp add: field_simps)
  have "0 < (- 180 - error) / 360" using h by simp
  then have "0 < \<lceil>(- 180 - error) / 360\<rceil>" by simp
  moreover have "\<lceil>(- 180 - (error + 360)) / 360\<rceil> = \<lceil>(- 180 - error) / 360\<rceil> - 1"
    unfolding e by simp
  ultimately show "(error + 360, error) \<in> measure (\<lambda>e. nat \<lceil>(- 180 - e) / 360\<rceil>)"
    by simp
qed

declare heading_error_sub.simps [simp del] heading_error_add.simps [simp del]

definition pid_heading_error :: "real \<Rightarrow> real \<Rightarrow> real" where
  "pid_heading_error sp input = heading_error_add (heading_error_sub (sp - input))"


subsection \<open>The C library's \<^verbatim>\<open>atan2\<close>\<close>

text \<open>
  \<^verbatim>\<open>atan2(y, x)\<close> of \<^verbatim>\<open>math.h\<close>, the angle of the point \<open>(x, y)\<close> in \<open>(-\<pi>, \<pi>]\<close>, by the
  quadrant of its arguments; \<^verbatim>\<open>atan2(0, 0)\<close> is \<open>0\<close>. \<^verbatim>\<open>M_PI\<close> is \<^term>\<open>pi\<close>.
\<close>

definition atan2 :: "real \<Rightarrow> real \<Rightarrow> real" where
  "atan2 y x =
     (if 0 < x then arctan (y / x)
      else if x < 0 then (if 0 \<le> y then arctan (y / x) + pi else arctan (y / x) - pi)
      else if 0 < y then pi / 2
      else if y < 0 then - (pi / 2)
      else 0)"

subsection \<open>gps.h, gps.c\<close>

record gps_data_t =
  latitude :: real
  longitude :: real
  altitude :: real
  satellites :: int
  fix_quality :: int
  fix_valid :: bool
  time :: string

record target_data_t =
  target_latitude :: real
  target_longitude :: real
  target_set :: bool

text \<open>
  The statics \<^verbatim>\<open>current_gps_data\<close> and \<^verbatim>\<open>target_data\<close> are the two arguments of the
  navigation functions. \<^verbatim>\<open>gps_set_target\<close> is the only function of \<^verbatim>\<open>gps.c\<close> that
  writes \<^verbatim>\<open>target_data\<close>. The reception and parsing of NMEA sentences
  (\<^verbatim>\<open>gps_update\<close>) is not modelled: its result, \<^verbatim>\<open>current_gps_data\<close>, is an input.

  Beyond their early returns, \<^verbatim>\<open>gps_distance_to_target\<close> and
  \<^verbatim>\<open>gps_bearing_to_target\<close> are the formulas of the source over the real numbers. The
  values that \<^verbatim>\<open>sin\<close>, \<^verbatim>\<open>cos\<close>, \<^verbatim>\<open>sqrt\<close> and \<^verbatim>\<open>atan2\<close> return in double
  precision differ from them by rounding (at a pole, by underflow, or with a square root
  of a negative number near antipodal points), so nothing below is derived from the exact
  value of a distance or a bearing past the early return.
\<close>

definition gps_set_target :: "target_data_t \<Rightarrow> real \<Rightarrow> real \<Rightarrow> target_data_t" where
  "gps_set_target t lat lng =
     t\<lparr>target_latitude := lat, target_longitude := lng, target_set := True\<rparr>"

definition gps_has_target :: "target_data_t \<Rightarrow> bool" where
  "gps_has_target t = target_set t"

definition gps_distance_to_target :: "gps_data_t \<Rightarrow> target_data_t \<Rightarrow> real" where
  "gps_distance_to_target g t =
     (if \<not> fix_valid g \<or> \<not> target_set t then 0
      else
        let lat1_rad = latitude g * pi / 180;
            lat2_rad = target_latitude t * pi / 180;
            delta_lat = (target_latitude t - latitude g) * pi / 180;
            delta_lng = (target_longitude t - longitude g) * pi / 180;
            a = sin (delta_lat / 2) * sin (delta_lat / 2) +
                cos lat1_rad * cos lat2_rad * sin (delta_lng / 2) * sin (delta_lng / 2);
            c = 2 * atan2 (sqrt a) (sqrt (1 - a))
        in 6371000 * c)"

definition gps_bearing_to_target :: "gps_data_t \<Rightarrow> target_data_t \<Rightarrow> real" where
  "gps_bearing_to_target g t =
     (if \<not> fix_valid g \<or> \<not> target_set t then 0
      else
        let lat1_rad = latitude g * pi / 180;
            lat2_rad = target_latitude t * pi / 180;
            delta_lng = (target_longitude t - longitude g) * pi / 180;
            y = sin delta_lng * cos lat2_rad;
            x = cos lat1_rad * sin lat2_rad - sin lat1_rad * cos lat2_rad * cos delta_lng;
            bearing = atan2 y x * 180 / pi
        in if bearing < 0 then bearing + 360 else bearing)"

definition gps_target_reached :: "gps_data_t \<Rightarrow> target_data_t \<Rightarrow> bool" where
  "gps_target_reached g t = (gps_distance_to_target g t < 2)"

subsection \<open>magnetometer.h, magnetometer.c\<close>

record magnetometer_t =
  mag_initialized :: bool
  filtered_heading :: real
  declination_angle :: real

text \<open>The module as the program starts: the initial values of its statics.\<close>

definition magnetometer_start :: magnetometer_t where
  "magnetometer_start =
     \<lparr>mag_initialized = False, filtered_heading = 0, declination_angle = 404 / 10000\<rparr>"

definition ALPHA :: real where
  "ALPHA = 6 / 10"

text \<open>
  \<^verbatim>\<open>magnetometer_read_raw\<close>. The argument \<open>bus\<close> is what \<^verbatim>\<open>i2c_read_blocking\<close> delivers:
  \<^const>\<open>None\<close> for \<^verbatim>\<open>PICO_ERROR_GENERIC\<close>, else the six bytes of the buffer. The result
  is \<^const>\<open>None\<close> where the source returns \<^verbatim>\<open>false\<close>, else the three samples.
\<close>

type_synonym i2c_buffer = "8 word \<times> 8 word \<times> 8 word \<times> 8 word \<times> 8 word \<times> 8 word"

definition assemble16 :: "8 word \<Rightarrow> 8 word \<Rightarrow> 16 word" where
  "assemble16 hi lo = or (push_bit 8 (ucast hi)) (ucast lo)"

definition magnetometer_read_raw ::
  "magnetometer_t \<Rightarrow> i2c_buffer option \<Rightarrow> (16 word \<times> 16 word \<times> 16 word) option" where
  "magnetometer_read_raw m bus =
     (if \<not> mag_initialized m then None
      else case bus of
        None \<Rightarrow> None
      | Some (b0, b1, b2, b3, b4, b5) \<Rightarrow>
          Some (assemble16 b1 b0, assemble16 b3 b2, assemble16 b5 b4))"

text \<open>
  \<^verbatim>\<open>magnetometer_calculate_heading\<close>, as written: the angle of \<^verbatim>\<open>atan2\<close> and the
  declination, both in radians, are multiplied by \<^verbatim>\<open>180.0\<close> and by nothing else, and
  the result is shifted by one turn at most.
\<close>

definition magnetometer_calculate_heading ::
  "magnetometer_t \<Rightarrow> 16 word \<Rightarrow> 16 word \<Rightarrow> real" where
  "magnetometer_calculate_heading m x y =
     (let heading = atan2 (real_of_int (sint y)) (real_of_int (sint x)) * 180;
          heading = heading + declination_angle m * 180
      in if heading < 0 then heading + 360
         else if heading \<ge> 360 then heading - 360
         else heading)"

text \<open>\<^verbatim>\<open>magnetometer_get_filtered_heading\<close>: the value returned and the module after it.\<close>

definition magnetometer_get_filtered_heading ::
  "magnetometer_t \<Rightarrow> i2c_buffer option \<Rightarrow> real \<times> magnetometer_t" where
  "magnetometer_get_filtered_heading m bus =
     (case magnetometer_read_raw m bus of
        None \<Rightarrow> (filtered_heading m, m)
      | Some (x, y, z) \<Rightarrow>
          let new_heading = magnetometer_calculate_heading m x y;
              difference = new_heading - filtered_heading m;
              difference = (if difference > 180 then difference - 360
                            else if difference < - 180 then difference + 360
                            else difference);
              fh = filtered_heading m + ALPHA * difference;
              fh = (if fh < 0 then fh + 360
                    else if fh \<ge> 360 then fh - 360
                    else fh)
          in (fh, m\<lparr>filtered_heading := fh\<rparr>))"

definition magnetometer_set_declination :: "magnetometer_t \<Rightarrow> real \<Rightarrow> magnetometer_t" where
  "magnetometer_set_declination m declination_rad = m\<lparr>declination_angle := declination_rad\<rparr>"

text \<open>
  The distance between two headings along the shorter arc of the circle, in degrees: the
  measure of a jump of the filtered heading.
\<close>

definition arc_distance :: "real \<Rightarrow> real \<Rightarrow> real" where
  "arc_distance a b = min \<bar>a - b\<bar> (360 - \<bar>a - b\<bar>)"


subsection \<open>The C library's \<^verbatim>\<open>atof\<close>\<close>

text \<open>
  \<^verbatim>\<open>atof(s)\<close> is \<^verbatim>\<open>strtod(s, NULL)\<close>: after white space and an optional sign it converts
  the longest prefix that is a decimal constant (digits with an optional point, an
  optional exponent), a hexadecimal constant (\<^verbatim>\<open>0x\<close>, hexadecimal digits with an optional
  point, an optional binary exponent), or a spelling of infinity or of NaN (\<^verbatim>\<open>inf\<close>,
  \<^verbatim>\<open>infinity\<close>, \<^verbatim>\<open>nan\<close>, in either case of letters). It has no error return: where no
  conversion can be performed it returns \<^verbatim>\<open>0.0\<close>. The result here is \<^const>\<open>None\<close> for an
  infinity or a NaN, which are no real numbers, and the number converted otherwise.
\<close>

definition isspace :: "char \<Rightarrow> bool" where
  "isspace c = (c \<in> {CHR '' '', CHR 0x09, CHR 0x0A, CHR 0x0B, CHR 0x0C, CHR 0x0D})"

definition isdigit :: "char \<Rightarrow> bool" where
  "isdigit c = (48 \<le> (of_char c :: nat) \<and> (of_char c :: nat) \<le> 57)"

definition isxdigit :: "char \<Rightarrow> bool" where
  "isxdigit c =
     (isdigit c \<or> (65 \<le> (of_char c :: nat) \<and> (of_char c :: nat) \<le> 70) \<or>
      (97 \<le> (of_char c :: nat) \<and> (of_char c :: nat) \<le> 102))"

definition digits_value :: "string \<Rightarrow> nat" where
  "digits_value ds = foldl (\<lambda>a c. 10 * a + (of_char c - 48)) 0 ds"

definition xdigit_value :: "char \<Rightarrow> nat" where
  "xdigit_value c =
     (if isdigit c then of_char c - 48
      else if 97 \<le> (of_char c :: nat) then of_char c - 87
      else of_char c - 55)"

definition xdigits_value :: "string \<Rightarrow> nat" where
  "xdigits_value ds = foldl (\<lambda>a c. 16 * a + xdigit_value c) 0 ds"

text \<open>The sign in front of a number: whether it is a minus, and the text after it.\<close>

definition read_sign :: "string \<Rightarrow> bool \<times> string" where
  "read_sign s =
     (case s of
        [] \<Rightarrow> (False, s)
      | c # r \<Rightarrow> if c = CHR ''-'' then (True, r) else if c = CHR ''+'' then (False, r)
                 else (False, s))"

text \<open>
  The digits before the point, the digits after it, and the text that follows, for the
  digits of one base.
\<close>

definition read_mantissa :: "(char \<Rightarrow> bool) \<Rightarrow> string \<Rightarrow> string \<times> string \<times> string" where
  "read_mantissa is_digit s =
     (let ip = takeWhile is_digit s; s2 = dropWhile is_digit s
      in case s2 of
           [] \<Rightarrow> (ip, [], s2)
         | c # r \<Rightarrow> if c = CHR ''.''
                    then (ip, takeWhile is_digit r, dropWhile is_digit r)
                    else (ip, [], s2))"

text \<open>
  The exponent part behind one of the two given letters, in decimal digits: \<open>0\<close> where
  there is none or where it has no digit.
\<close>

definition read_exponent :: "char \<Rightarrow> char \<Rightarrow> string \<Rightarrow> int" where
  "read_exponent lower upper s =
     (case s of
        [] \<Rightarrow> 0
      | c # r \<Rightarrow>
          if c = lower \<or> c = upper then
            let (neg, r') = read_sign r; ds = takeWhile isdigit r'
            in if ds = [] then 0
               else if neg then - int (digits_value ds) else int (digits_value ds)
          else 0)"

definition scale :: "real \<Rightarrow> real \<Rightarrow> int \<Rightarrow> real" where
  "scale m b e = (if 0 \<le> e then m * b ^ nat e else m / b ^ nat (- e))"

text \<open>Whether the text begins with \<^verbatim>\<open>inf\<close> or \<^verbatim>\<open>nan\<close>, in either case of letters.\<close>

definition is_inf_or_nan :: "string \<Rightarrow> bool" where
  "is_inf_or_nan s =
     (case s of
        a # b # c # _ \<Rightarrow>
          (a \<in> {CHR ''i'', CHR ''I''} \<and> b \<in> {CHR ''n'', CHR ''N''} \<and> c \<in> {CHR ''f'', CHR ''F''}) \<or>
          (a \<in> {CHR ''n'', CHR ''N''} \<and> b \<in> {CHR ''a'', CHR ''A''} \<and> c \<in> {CHR ''n'', CHR ''N''})
      | _ \<Rightarrow> False)"

text \<open>A hexadecimal constant at the head of the text, if there is one.\<close>

definition hex_constant :: "string \<Rightarrow> real option" where
  "hex_constant s =
     (case s of
        z # x # r \<Rightarrow>
          if z = CHR ''0'' \<and> (x = CHR ''x'' \<or> x = CHR ''X'') then
            let (ip, fp, rest) = read_mantissa isxdigit r
            in if ip = [] \<and> fp = [] then None
               else Some (scale (real (xdigits_value (ip @ fp)) / 16 ^ length fp) 2
                            (read_exponent (CHR ''p'') (CHR ''P'') rest))
          else None
      | _ \<Rightarrow> None)"

text \<open>The decimal constant at the head of the text, \<open>0\<close> if there is none.\<close>

definition decimal_constant :: "string \<Rightarrow> real" where
  "decimal_constant s =
     (let (ip, fp, rest) = read_mantissa isdigit s
      in if ip = [] \<and> fp = [] then 0
         else scale (real (digits_value (ip @ fp)) / 10 ^ length fp) 10
                (read_exponent (CHR ''e'') (CHR ''E'') rest))"

definition atof :: "string \<Rightarrow> real option" where
  "atof s =
     (let (neg, s1) = read_sign (dropWhile isspace s)
      in if is_inf_or_nan s1 then None
         else
           let v = (case hex_constant s1 of Some h \<Rightarrow> h | None \<Rightarrow> decimal_constant s1)
           in Some (if neg then - v else v))"

subsection \<open>bluetooth.c\<close>

text \<open>
  What a piece of C does: it returns a value, or its behaviour is undefined (a write past
  the end of an array, a conversion out of range).
\<close>

datatype 'a c_outcome = Returns 'a | Undefined_behaviour

definition and_then :: "'a c_outcome \<Rightarrow> ('a \<Rightarrow> 'b c_outcome) \<Rightarrow> 'b c_outcome" where
  "and_then r f = (case r of Undefined_behaviour \<Rightarrow> Undefined_behaviour | Returns x \<Rightarrow> f x)"

text \<open>
  \<^verbatim>\<open>bluetooth_parse_coordinates\<close>. The result is the value returned and the two numbers
  stored through \<^verbatim>\<open>lat\<close> and \<^verbatim>\<open>lng\<close>: none on the two early returns, where nothing is
  stored, and none where a field converts to an infinity or a NaN. With such a field one
  of the comparisons of the range test is false, whatever the other field, so the function
  returns \<^verbatim>\<open>false\<close>. The latitude text is copied only when it fits \<^verbatim>\<open>lat_str[32]\<close>; the
  longitude text is copied by \<^verbatim>\<open>strcpy\<close> into \<^verbatim>\<open>lng_str[32]\<close> with no check.
\<close>

definition bluetooth_parse_coordinates ::
  "string \<Rightarrow> (bool \<times> (real \<times> real) option) c_outcome" where
  "bluetooth_parse_coordinates command =
     (if CHR '','' \<notin> set command then Returns (False, None)
      else
        let lat_str = takeWhile (\<lambda>c. c \<noteq> CHR '','') command;
            lat_len = length lat_str;
            lng_str = tl (dropWhile (\<lambda>c. c \<noteq> CHR '','') command)
        in if lat_len \<ge> 32 then Returns (False, None)
           else if length lng_str \<ge> 32 then Undefined_behaviour
           else
             case (atof lat_str, atof lng_str) of
               (Some lat, Some lng) \<Rightarrow>
                 Returns (lat \<ge> - 90 \<and> lat \<le> 90 \<and> lng \<ge> - 180 \<and> lng \<le> 180,
                          Some (lat, lng))
             | _ \<Rightarrow> Returns (False, None))"

subsection \<open>config.h\<close>

definition KP_RPM :: real where "KP_RPM = 3"
definition KI_RPM :: real where "KI_RPM = 2 / 10"
definition KD_RPM :: real where "KD_RPM = 1 / 10"
definition KP_DIR :: real where "KP_DIR = 2"
definition KI_DIR :: real where "KI_DIR = 1 / 10"
definition KD_DIR :: real where "KD_DIR = 2 / 10"
definition BASE_SPEED_A :: int where "BASE_SPEED_A = 180"
definition BASE_SPEED_B :: int where "BASE_SPEED_B = 190"
definition MIN_SPEED :: int where "MIN_SPEED = 30"
definition MAX_SPEED :: int where "MAX_SPEED = 255"

subsection \<open>WALLY\_S.c: the loop of \<^verbatim>\<open>integration_test\<close>\<close>

text \<open>
  The loop drives two modules from outside: the motors (\<^verbatim>\<open>motors.h\<close>) and the
  Bluetooth link. The state keeps the calls it makes to the first and the messages it
  sends over the second, in order. Of the directions of \<^verbatim>\<open>motors.h\<close> the loop uses
  \<^verbatim>\<open>MOTOR_FORWARD\<close> only. Output to the console is left out.
\<close>

datatype motor_direction = MOTOR_FORWARD

datatype motor_call =
  Motors_stop_all
| Motors_set_both_motors motor_direction int motor_direction int

text \<open>
  The messages, one constructor for each text the loop sends (written here without
  their accents): \<^verbatim>\<open>"Navegacion detenida"\<close>, \<^verbatim>\<open>"Objetivo establecido"\<close>,
  \<^verbatim>\<open>"Formato invalido. Usar: LAT,LNG"\<close>, \<^verbatim>\<open>"Objetivo alcanzado!"\<close>, and the two
  formatted reports of \<^verbatim>\<open>bluetooth_send_status\<close> and
  \<^verbatim>\<open>bluetooth_send_navigation_info\<close> with their arguments. The loop is entered only
  when every module has been initialised, so each of them is sent.
\<close>

datatype bt_message =
  Navigation_stopped
| Target_established
| Invalid_format
| Target_reached
| Status real real real bool
| Navigation_info real real real real real real

record robot =
  mag :: magnetometer_t
  current_gps_data :: gps_data_t
  target_data :: target_data_t
  heading_pid :: pid_controller_t
  speed_pid_a :: pid_controller_t
  speed_pid_b :: pid_controller_t
  navigation_active :: bool
  loop_counter :: int
  led :: bool
  motor_calls :: "motor_call list"
  bt_sent :: "bt_message list"

text \<open>
  What one pass of the loop reads from outside: the I2C transfer of the magnetometer,
  \<^verbatim>\<open>current_gps_data\<close> as \<^verbatim>\<open>gps_update\<close> leaves it, the line of
  \<^verbatim>\<open>bluetooth_read_line\<close> when it returned a positive count, and the two readings of
  \<^verbatim>\<open>time_us_32\<close>, in \<^verbatim>\<open>pid_reset\<close> and in \<^verbatim>\<open>pid_compute\<close>.
\<close>

record tick_input =
  i2c_read :: "i2c_buffer option"
  gps_after_update :: gps_data_t
  bt_line :: "string option"
  time_reset :: "32 word"
  time_compute :: "32 word"

text \<open>The conversion \<^verbatim>\<open>(int)d\<close>: towards zero, undefined out of the range of \<^verbatim>\<open>int\<close>.\<close>

definition double_to_int :: "real \<Rightarrow> int c_outcome" where
  "double_to_int d =
     (if - (2 ^ 31) - 1 < d \<and> d < 2 ^ 31
      then Returns (if 0 \<le> d then \<lfloor>d\<rfloor> else \<lceil>d\<rceil>)
      else Undefined_behaviour)"

definition limit_speed :: "int \<Rightarrow> int" where
  "limit_speed v = (if v < MIN_SPEED then MIN_SPEED else if v > MAX_SPEED then MAX_SPEED else v)"

text \<open>Lines 124 to 144: a line has arrived.\<close>

definition process_command :: "robot \<Rightarrow> string \<Rightarrow> 32 word \<Rightarrow> robot c_outcome" where
  "process_command s bt_buffer now =
     (if bt_buffer = ''STOP'' then
        Returns (s\<lparr>navigation_active := False,
                   motor_calls := motor_calls s @ [Motors_stop_all],
                   bt_sent := bt_sent s @ [Navigation_stopped]\<rparr>)
      else
        and_then (bluetooth_parse_coordinates bt_buffer) (\<lambda>(ok, stored).
          case stored of
            Some (lat, lng) \<Rightarrow>
              if ok then
                Returns (s\<lparr>target_data := gps_set_target (target_data s) lat lng,
                           navigation_active := True,
                           heading_pid := pid_reset (heading_pid s) now,
                           bt_sent := bt_sent s @ [Target_established]\<rparr>)
              else Returns (s\<lparr>bt_sent := bt_sent s @ [Invalid_format]\<rparr>)
          | None \<Rightarrow> Returns (s\<lparr>bt_sent := bt_sent s @ [Invalid_format]\<rparr>)))"

text \<open>Lines 147 to 176: the autonomous navigation.\<close>

definition navigation_control ::
  "robot \<Rightarrow> gps_data_t \<Rightarrow> real \<Rightarrow> 32 word \<Rightarrow> robot c_outcome" where
  "navigation_control s gps_data heading now =
     (if navigation_active s \<and> fix_valid gps_data \<and> gps_has_target (target_data s) then
        let target_bearing = gps_bearing_to_target (current_gps_data s) (target_data s) in
        if gps_target_reached (current_gps_data s) (target_data s) then
          Returns (s\<lparr>navigation_active := False,
                     motor_calls := motor_calls s @ [Motors_stop_all],
                     bt_sent := bt_sent s @ [Target_reached]\<rparr>)
        else
          let (heading_correction, hp) =
                pid_compute (pid_set_setpoint (heading_pid s) target_bearing) heading now
          in and_then (double_to_int heading_correction) (\<lambda>c.
               let speed_a = limit_speed (BASE_SPEED_A - c);
                   speed_b = limit_speed (BASE_SPEED_B + c)
               in Returns (s\<lparr>heading_pid := hp,
                             motor_calls := motor_calls s @
                               [Motors_set_both_motors MOTOR_FORWARD speed_a
                                  MOTOR_FORWARD speed_b]\<rparr>))
      else Returns s)"

text \<open>Lines 179 to 200: the report, every twentieth pass.\<close>

definition status_report :: "robot \<Rightarrow> gps_data_t \<Rightarrow> real \<Rightarrow> robot" where
  "status_report s gps_data heading =
     (if loop_counter s + 1 \<ge> 20 then
        let msg =
              (if gps_has_target (target_data s) \<and> fix_valid gps_data then
                 Navigation_info (latitude gps_data) (longitude gps_data) 0 0
                   (gps_distance_to_target (current_gps_data s) (target_data s))
                   (gps_bearing_to_target (current_gps_data s) (target_data s))
               else Status heading 0 0 (fix_valid gps_data))
        in s\<lparr>led := \<not> led s, bt_sent := bt_sent s @ [msg], loop_counter := 0\<rparr>
      else s\<lparr>loop_counter := loop_counter s + 1\<rparr>)"

text \<open>The commands of one pass: none when no line has arrived.\<close>

definition poll_command :: "robot \<Rightarrow> tick_input \<Rightarrow> robot c_outcome" where
  "poll_command s inp =
     (case bt_line inp of
        None \<Rightarrow> Returns s
      | Some bt_buffer \<Rightarrow> process_command s bt_buffer (time_reset inp))"

text \<open>The sensors of one pass, lines 118 to 120: the heading read and the state after.\<close>

definition read_sensors :: "robot \<Rightarrow> tick_input \<Rightarrow> real \<times> robot" where
  "read_sensors s inp =
     (let (heading, m) = magnetometer_get_filtered_heading (mag s) (i2c_read inp)
      in (heading, s\<lparr>mag := m, current_gps_data := gps_after_update inp\<rparr>))"

text \<open>One pass of the \<^verbatim>\<open>while (true)\<close> loop, lines 116 to 203.\<close>

definition integration_tick :: "robot \<Rightarrow> tick_input \<Rightarrow> robot c_outcome" where
  "integration_tick s inp =
     (let (heading, s1) = read_sensors s inp;
          gps_data = current_gps_data s1
      in and_then (poll_command s1 inp) (\<lambda>s2.
         and_then (navigation_control s2 gps_data heading (time_compute inp)) (\<lambda>s3.
         Returns (status_report s3 gps_data heading))))"

text \<open>
  The state in which the loop is entered, lines 78 to 114, every module initialised; the
  arguments are the readings of \<^verbatim>\<open>time_us_32\<close> in the three calls of \<^verbatim>\<open>pid_init\<close>.
\<close>

definition integration_start :: "32 word \<Rightarrow> 32 word \<Rightarrow> 32 word \<Rightarrow> robot" where
  "integration_start t0 t1 t2 =
     \<lparr>mag = magnetometer_start\<lparr>mag_initialized := True\<rparr>,
      current_gps_data = \<lparr>latitude = 0, longitude = 0, altitude = 0, satellites = 0,
        fix_quality = 0, fix_valid = False, time = []\<rparr>,
      target_data = \<lparr>target_latitude = 0, target_longitude = 0, target_set = False\<rparr>,
      heading_pid = pid_init KP_DIR KI_DIR KD_DIR (- 50) 50 t0,
      speed_pid_a = pid_set_setpoint
        (pid_init KP_RPM KI_RPM KD_RPM (real_of_int MIN_SPEED) (real_of_int MAX_SPEED) t1)
        (real_of_int BASE_SPEED_A),
      speed_pid_b = pid_set_setpoint
        (pid_init KP_RPM KI_RPM KD_RPM (real_of_int MIN_SPEED) (real_of_int MAX_SPEED) t2)
        (real_of_int BASE_SPEED_B),
      navigation_active = False, loop_counter = 0, led = False,
      motor_calls = [], bt_sent = []\<rparr>"


subsection \<open>Reference notions and test data\<close>

text \<open>
  Clamping a value to the interval from \<open>lo\<close> to \<open>hi\<close>, the notion the specification
  of the controller's output uses.
\<close>

definition clamp :: "real \<Rightarrow> real \<Rightarrow> real \<Rightarrow> real" where
  "clamp x lo hi = max lo (min hi x)"

text \<open>
  The controller of \<^verbatim>\<open>pid_test\<close> (\<^verbatim>\<open>pid.c\<close>, lines 147 and 153), its time base at
  counter value \<open>0\<close>.
\<close>

definition pid_test_controller :: pid_controller_t where
  "pid_test_controller = pid_set_setpoint (pid_init 2 (1 / 10) (2 / 10) (- 100) 100 0) 90"

text \<open>
  A heading controller with the gains of \<^verbatim>\<open>config.h\<close>, last run at the last value of
  the microsecond counter before it wraps.
\<close>

definition wrapped_controller :: pid_controller_t where
  "wrapped_controller = pid_set_setpoint (pid_init 2 (1 / 10) (2 / 10) (- 50) 50 4294967295) 10"

text \<open>A target set at a coordinate.\<close>

definition target_at :: "real \<Rightarrow> real \<Rightarrow> target_data_t" where
  "target_at lat lng = \<lparr>target_latitude = lat, target_longitude = lng, target_set = True\<rparr>"

text \<open>
  A magnetometer whose filtered heading stands at \<open>350\<close> degrees, the declination as the
  program starts, and a transfer that delivers the samples \<open>x = -1000\<close>, \<open>y = -1\<close>,
  \<open>z = 0\<close> (low byte first).
\<close>

definition seam_magnetometer :: magnetometer_t where
  "seam_magnetometer = magnetometer_start\<lparr>mag_initialized := True, filtered_heading := 350\<rparr>"

definition seam_sample :: i2c_buffer where
  "seam_sample = (0x18, 0xFC, 0xFF, 0xFF, 0, 0)"

text \<open>The headings that successive calls return, one for each transfer of the list.\<close>

fun filtered_headings :: "magnetometer_t \<Rightarrow> i2c_buffer option list \<Rightarrow> real list" where
  "filtered_headings m [] = []"
| "filtered_headings m (bus # rest) =
     fst (magnetometer_get_filtered_heading m bus) #
     filtered_headings (snd (magnetometer_get_filtered_heading m bus)) rest"

text \<open>
  Data for the loop: a receiver without fix, a pass in which nothing arrives, the robot
  after the line \<^verbatim>\<open>10,20\<close> has set a target, and the same robot once it has driven.
\<close>

definition no_fix :: gps_data_t where
  "no_fix = \<lparr>latitude = 0, longitude = 0, altitude = 0, satellites = 0, fix_quality = 0,
     fix_valid = False, time = []\<rparr>"

definition quiet_input :: tick_input where
  "quiet_input = \<lparr>i2c_read = None, gps_after_update = no_fix, bt_line = None,
     time_reset = 1000, time_compute = 2000\<rparr>"

definition navigating_robot :: robot where
  "navigating_robot =
     (integration_start 0 0 0)\<lparr>target_data := target_at 10 20, navigation_active := True,
        heading_pid := pid_reset (pid_init KP_DIR KI_DIR KD_DIR (- 50) 50 0) 1000,
        bt_sent := [Target_established], loop_counter := 1\<rparr>"

definition driving_robot :: robot where
  "driving_robot =
     navigating_robot\<lparr>motor_calls := [Motors_set_both_motors MOTOR_FORWARD 180 MOTOR_FORWARD 190]\<rparr>"

text \<open>A controller without integral gain, as \<^verbatim>\<open>pid_init\<close> and \<^verbatim>\<open>pid_set_setpoint\<close> make it.\<close>

definition pd_controller :: pid_controller_t where
  "pd_controller = pid_set_setpoint (pid_init 2 0 (2 / 10) (- 50) 50 0) 10"

section \<open>Properties\<close>

subsection \<open>The heading error\<close>

text \<open>Each loop of \<^verbatim>\<open>pid_heading_error\<close>, one step at a time.\<close>

lemma heading_error_sub_id: "e \<le> 180 \<Longrightarrow> heading_error_sub e = e"
  by (subst heading_error_sub.simps) simp

lemma heading_error_sub_step: "180 < e \<Longrightarrow> heading_error_sub e = heading_error_sub (e - 360)"
  by (subst heading_error_sub.simps) simp

lemma heading_error_add_id: "- 180 \<le> e \<Longrightarrow> heading_error_add e = e"
  by (subst heading_error_add.simps) simp

lemma heading_error_add_step: "e < - 180 \<Longrightarrow> heading_error_add e = heading_error_add (e + 360)"
  by (subst heading_error_add.simps) simp

lemma heading_error_sub_le: "heading_error_sub e \<le> 180"
proof (induction e rule: heading_error_sub.induct)
  case (1 error)
  show ?case
  proof (cases "180 < error")
    case True
    then show ?thesis using 1 by (simp add: heading_error_sub_step)
  next
    case False
    then show ?thesis by (simp add: heading_error_sub_id)
  qed
qed

lemma heading_error_sub_gt: "180 < e \<Longrightarrow> - 180 < heading_error_sub e"
proof (induction e rule: heading_error_sub.induct)
  case (1 error)
  show ?case
  proof (cases "180 < error - 360")
    case True
    then show ?thesis using 1 by (simp add: heading_error_sub_step)
  next
    case False
    then have "heading_error_sub (error - 360) = error - 360" by (simp add: heading_error_sub_id)
    then show ?thesis using 1(2) by (simp add: heading_error_sub_step)
  qed
qed

lemma heading_error_add_neg: "heading_error_add (- e) = - heading_error_sub e"
proof (induction e rule: heading_error_sub.induct)
  case (1 error)
  show ?case
  proof (cases "180 < error")
    case True
    then have "heading_error_add (- error) = heading_error_add (- error + 360)"
      by (simp add: heading_error_add_step)
    also have "\<dots> = heading_error_add (- (error - 360))" by simp
    also have "\<dots> = - heading_error_sub (error - 360)" using 1 True by simp
    also have "\<dots> = - heading_error_sub error" using True by (simp add: heading_error_sub_step)
    finally show ?thesis .
  next
    case False
    then show ?thesis by (simp add: heading_error_sub_id heading_error_add_id)
  qed
qed

lemma heading_error_sub_neg: "heading_error_sub (- e) = - heading_error_add e"
  using heading_error_add_neg [of "- e"] by simp

lemma heading_error_add_ge: "- 180 \<le> heading_error_add e"
  using heading_error_sub_le [of "- e"] by (simp add: heading_error_sub_neg)

lemma heading_error_add_lt: "e < - 180 \<Longrightarrow> heading_error_add e < 180"
  using heading_error_sub_gt [of "- e"] by (simp add: heading_error_sub_neg)

text \<open>
  Claim C6. For all headings \<open>a\<close> and \<open>b\<close>, \<^verbatim>\<open>pid_heading_error(a, b)\<close> lies in
  \<open>[-180, 180]\<close> and is the negation of \<^verbatim>\<open>pid_heading_error(b, a)\<close>: the first loop
  leaves \<open>180\<close> and the second leaves \<open>-180\<close>, so the negation is exact also on the
  boundary. Across the seam, \<^verbatim>\<open>pid_heading_error(10, 350)\<close> is \<open>20\<close>.
\<close>

theorem pid_heading_error_range_antisym:
  "- 180 \<le> pid_heading_error a b \<and> pid_heading_error a b \<le> 180 \<and>
   pid_heading_error a b = - pid_heading_error b a \<and>
   pid_heading_error 10 350 = 20"
proof -
  have range: "- 180 \<le> pid_heading_error x y \<and> pid_heading_error x y \<le> 180" for x y
  proof (cases "180 < x - y")
    case True
    then have "- 180 < heading_error_sub (x - y)" by (rule heading_error_sub_gt)
    then have "heading_error_add (heading_error_sub (x - y)) = heading_error_sub (x - y)"
      by (simp add: heading_error_add_id)
    then show ?thesis
      using heading_error_sub_le [of "x - y"] \<open>- 180 < heading_error_sub (x - y)\<close>
      by (simp add: pid_heading_error_def)
  next
    case False
    then have s: "heading_error_sub (x - y) = x - y" by (simp add: heading_error_sub_id)
    show ?thesis
    proof (cases "x - y < - 180")
      case True
      then show ?thesis
        using heading_error_add_lt [of "x - y"] heading_error_add_ge [of "x - y"]
        by (simp add: pid_heading_error_def s)
    next
      case False
      then show ?thesis using \<open>\<not> 180 < x - y\<close>
        by (simp add: pid_heading_error_def heading_error_sub_id heading_error_add_id)
    qed
  qed
  have odd: "heading_error_add (heading_error_sub e) = - heading_error_add (heading_error_sub (- e))" for e
  proof -
    have "heading_error_add (heading_error_sub (- e)) = heading_error_add (- heading_error_add e)"
      by (simp only: heading_error_sub_neg)
    also have "\<dots> = - heading_error_sub (heading_error_add e)"
      by (simp only: heading_error_add_neg)
    finally have 1: "heading_error_add (heading_error_sub (- e)) = - heading_error_sub (heading_error_add e)" .
    have 2: "heading_error_sub (heading_error_add e) = heading_error_add (heading_error_sub e)"
    proof (cases "180 < e")
      case True
      then have "- 180 < heading_error_sub e" by (rule heading_error_sub_gt)
      then have "heading_error_add (heading_error_sub e) = heading_error_sub e"
        by (simp add: heading_error_add_id)
      moreover have "heading_error_add e = e" using True by (simp add: heading_error_add_id)
      ultimately show ?thesis by simp
    next
      case False
      then have a: "heading_error_sub e = e" by (simp add: heading_error_sub_id)
      show ?thesis
      proof (cases "e < - 180")
        case True
        then have "heading_error_add e < 180" by (rule heading_error_add_lt)
        then have "heading_error_sub (heading_error_add e) = heading_error_add e"
          by (simp add: heading_error_sub_id)
        then show ?thesis by (simp only: a)
      next
        case False
        then show ?thesis using \<open>\<not> 180 < e\<close>
          by (simp add: heading_error_sub_id heading_error_add_id)
      qed
    qed
    show ?thesis using 1 2 by simp
  qed
  have anti: "pid_heading_error a b = - pid_heading_error b a"
    using odd [of "a - b"] by (simp add: pid_heading_error_def)
  have ex: "pid_heading_error 10 350 = 20"
  proof -
    have "heading_error_add (- 340) = heading_error_add (- 340 + 360)"
      by (rule heading_error_add_step) simp
    then show ?thesis
      by (simp add: pid_heading_error_def heading_error_sub_id heading_error_add_id)
  qed
  have r1: "- 180 \<le> pid_heading_error a b" and r2: "pid_heading_error a b \<le> 180"
    using range [of a b] by simp_all
  from r1 r2 anti ex show ?thesis by (intro conjI)
qed

subsection \<open>The elapsed time of \<^verbatim>\<open>pid_compute\<close>\<close>

lemma pid_dt_nonneg: "0 \<le> pid_dt now previous"
  by (simp add: pid_dt_def del: of_nat_unat)

lemma pid_dt_zero_iff: "pid_dt now previous = 0 \<longleftrightarrow> now = previous"
  by (simp add: pid_dt_def unat_0_iff del: of_nat_unat)

lemma pid_dt_le_zero_iff: "pid_dt now previous \<le> 0 \<longleftrightarrow> now = previous"
  using pid_dt_nonneg [of now previous] pid_dt_zero_iff [of now previous] by linarith

lemma pid_dt_wrapped:
  "now < previous \<Longrightarrow>
   pid_dt now previous = (real (unat now) + 2 ^ 32 - real (unat previous)) / 1000000"
proof -
  assume lt: "now < previous"
  then have n: "unat now < unat previous" by (simp add: word_less_nat_alt)
  have p: "unat previous < 2 ^ 32" using unsigned_less [of previous, where ?'a = nat] by simp
  have "unat (now - previous) = unat now + 2 ^ 32 - unat previous"
    using n by (simp add: unat_sub_if_size word_size)
  then have "real (unat (now - previous)) = real (unat now + 2 ^ 32 - unat previous)" by simp
  also have "\<dots> = real (unat now) + 2 ^ 32 - real (unat previous)"
    using p by (simp add: of_nat_diff del: of_nat_unat)
  finally show ?thesis by (simp add: pid_dt_def del: of_nat_unat)
qed

lemma pid_compute_guard:
  "initialized pid \<Longrightarrow> now = last_time pid \<Longrightarrow> pid_compute pid input now = (0, pid)"
  by (simp add: pid_compute_def pid_dt_le_zero_iff)

lemma pid_compute_updates:
  assumes "initialized pid" and "now \<noteq> last_time pid"
  shows "last_time (snd (pid_compute pid input now)) = now"
    and "last_input (snd (pid_compute pid input now)) = input"
  using assms by (simp_all add: pid_compute_def Let_def pid_dt_le_zero_iff split: prod.splits)

lemma pid_compute_unsaturated:
  assumes "initialized pid" and "now \<noteq> last_time pid"
    and "output_min pid \<le> kp pid * (setpoint pid - input) +
           ki pid * (integral_sum pid + (setpoint pid - input) * pid_dt now (last_time pid)) -
           kd pid * (input - last_input pid) / pid_dt now (last_time pid)"
    and "kp pid * (setpoint pid - input) +
           ki pid * (integral_sum pid + (setpoint pid - input) * pid_dt now (last_time pid)) -
           kd pid * (input - last_input pid) / pid_dt now (last_time pid) \<le> output_max pid"
  shows "pid_compute pid input now =
    (kp pid * (setpoint pid - input) +
       ki pid * (integral_sum pid + (setpoint pid - input) * pid_dt now (last_time pid)) -
       kd pid * (input - last_input pid) / pid_dt now (last_time pid),
     pid\<lparr>integral_sum := integral_sum pid + (setpoint pid - input) * pid_dt now (last_time pid),
         last_input := input, last_time := now\<rparr>)"
  using assms by (simp add: pid_compute_def Let_def pid_dt_le_zero_iff not_less)

text \<open>
  Claim C10. For all 32-bit counter values, the elapsed time that \<^verbatim>\<open>pid_compute\<close>
  derives from the wrapping difference is never negative and is zero exactly when the two
  values are equal. So the guard \<^verbatim>\<open>dt <= 0\<close> fires for an initialised controller only
  on a call at the very counter value of the last one. When the counter has wrapped
  (\<open>now\<close> below the last value) the elapsed time is the positive
  \<open>(now + 2\<^sup>3\<^sup>2 - last) / 10\<^sup>6\<close>; the update is not skipped: the time base and the
  last input are replaced and, where the output does not saturate, this elapsed time is
  what enters the integral.
\<close>

theorem pid_dt_wraparound:
  "0 \<le> pid_dt now previous \<and>
   (pid_dt now previous = 0) = (now = previous) \<and>
   (pid_dt now previous \<le> 0) = (now = previous) \<and>
   (now < previous \<longrightarrow>
      pid_dt now previous = (real (unat now) + 2 ^ 32 - real (unat previous)) / 1000000) \<and>
   (initialized pid \<and> now = last_time pid \<longrightarrow> pid_compute pid input now = (0, pid)) \<and>
   (initialized pid \<and> now \<noteq> last_time pid \<longrightarrow>
      last_time (snd (pid_compute pid input now)) = now \<and>
      last_input (snd (pid_compute pid input now)) = input) \<and>
   (initialized pid \<and> now \<noteq> last_time pid \<and>
    output_min pid \<le> kp pid * (setpoint pid - input) +
       ki pid * (integral_sum pid + (setpoint pid - input) * pid_dt now (last_time pid)) -
       kd pid * (input - last_input pid) / pid_dt now (last_time pid) \<and>
    kp pid * (setpoint pid - input) +
       ki pid * (integral_sum pid + (setpoint pid - input) * pid_dt now (last_time pid)) -
       kd pid * (input - last_input pid) / pid_dt now (last_time pid) \<le> output_max pid \<longrightarrow>
      integral_sum (snd (pid_compute pid input now)) =
        integral_sum pid + (setpoint pid - input) * pid_dt now (last_time pid))"
proof (intro conjI impI)
  show "0 \<le> pid_dt now previous" by (rule pid_dt_nonneg)
  show "(pid_dt now previous = 0) = (now = previous)" by (rule pid_dt_zero_iff)
  show "(pid_dt now previous \<le> 0) = (now = previous)" by (rule pid_dt_le_zero_iff)
  show "pid_dt now previous = (real (unat now) + 2 ^ 32 - real (unat previous)) / 1000000"
    if "now < previous" using that by (rule pid_dt_wrapped)
  show "pid_compute pid input now = (0, pid)" if "initialized pid \<and> now = last_time pid"
    using that by (simp add: pid_compute_guard)
  show "last_time (snd (pid_compute pid input now)) = now"
    if "initialized pid \<and> now \<noteq> last_time pid"
    using that by (simp add: pid_compute_updates)
  show "last_input (snd (pid_compute pid input now)) = input"
    if "initialized pid \<and> now \<noteq> last_time pid"
    using that by (simp add: pid_compute_updates)
  show "integral_sum (snd (pid_compute pid input now)) =
        integral_sum pid + (setpoint pid - input) * pid_dt now (last_time pid)"
    if "initialized pid \<and> now \<noteq> last_time pid \<and>
    output_min pid \<le> kp pid * (setpoint pid - input) +
       ki pid * (integral_sum pid + (setpoint pid - input) * pid_dt now (last_time pid)) -
       kd pid * (input - last_input pid) / pid_dt now (last_time pid) \<and>
    kp pid * (setpoint pid - input) +
       ki pid * (integral_sum pid + (setpoint pid - input) * pid_dt now (last_time pid)) -
       kd pid * (input - last_input pid) / pid_dt now (last_time pid) \<le> output_max pid"
    using that pid_compute_unsaturated [of pid now input] by simp
qed

lemma wrapped_dt: "pid_dt 5 4294967295 = 6 / 1000000"
  by (simp add: pid_dt_def)

lemma wrapped_controller_fields:
  "initialized wrapped_controller" "last_time wrapped_controller = 4294967295"
  "setpoint wrapped_controller = 10" "kp wrapped_controller = 2"
  "ki wrapped_controller = 1 / 10" "kd wrapped_controller = 2 / 10"
  "integral_sum wrapped_controller = 0" "last_input wrapped_controller = 0"
  "output_min wrapped_controller = - 50" "output_max wrapped_controller = 50"
  by (simp_all add: wrapped_controller_def pid_init_def pid_set_setpoint_def)

text \<open>
  The counter wraps from \<open>4294967295\<close> to \<open>5\<close>: six microseconds have passed, and they
  enter the integral with the error \<open>10\<close>.
\<close>

theorem pid_dt_wraparound_witness:
  "(5 :: 32 word) < 4294967295 \<and> pid_dt 5 4294967295 = 6 / 1000000 \<and>
   initialized wrapped_controller \<and> last_time wrapped_controller = 4294967295 \<and>
   last_time (snd (pid_compute wrapped_controller 0 5)) = 5 \<and>
   integral_sum (snd (pid_compute wrapped_controller 0 5)) = 60 / 1000000 \<and>
   pid_compute wrapped_controller 0 4294967295 = (0, wrapped_controller)"
proof -
  have a: "(5 :: 32 word) < 4294967295" by simp
  show ?thesis
    using pid_dt_wraparound [of 5 4294967295 wrapped_controller 0] a
      pid_dt_wraparound [of 4294967295 4294967295 wrapped_controller 0]
    by (simp add: wrapped_controller_fields wrapped_dt)
qed

subsection \<open>Two calls of \<^verbatim>\<open>pid_compute\<close> at one counter value\<close>

lemma pid_compute_again:
  "pid_compute (snd (pid_compute pid input now)) input' now = (0, snd (pid_compute pid input now))"
proof (cases "initialized pid \<and> now \<noteq> last_time pid")
  case True
  then have dt: "\<not> pid_dt now (last_time pid) \<le> 0" by (simp add: pid_dt_le_zero_iff)
  have "last_time (snd (pid_compute pid input now)) = now"
    using True dt by (simp add: pid_compute_def Let_def split: prod.splits)
  then have "pid_dt now (last_time (snd (pid_compute pid input now))) = 0"
    by (simp add: pid_dt_zero_iff)
  then show ?thesis by (simp add: pid_compute_def [of "snd (pid_compute pid input now)"])
next
  case False
  then have "pid_compute pid input now = (0, pid)"
    by (auto simp: pid_compute_def pid_dt_le_zero_iff)
  moreover have "pid_compute pid input' now = (0, pid)"
    using False by (auto simp: pid_compute_def pid_dt_le_zero_iff)
  ultimately show ?thesis by simp
qed

lemma pid_test_first:
  "pid_compute pid_test_controller 0 50000 =
     (100, pid_test_controller\<lparr>integral_sum := - 800, last_input := 0, last_time := 50000\<rparr>)"
  by (simp add: pid_test_controller_def pid_init_def pid_set_setpoint_def pid_compute_def
      pid_dt_def Let_def)

text \<open>
  Claim C3, as stated, fails. The controller of \<^verbatim>\<open>pid_test\<close>, run on input \<open>0\<close> at
  counter value \<open>50000\<close>, saturates at \<open>100\<close>; run again at the same counter value it
  returns \<open>0\<close>, not \<open>100\<close>.
\<close>

theorem pid_compute_same_time_counterexample:
  "fst (pid_compute (snd (pid_compute pid_test_controller 0 50000)) 0 50000)
     \<noteq> fst (pid_compute pid_test_controller 0 50000)"
proof -
  have "fst (pid_compute (snd (pid_compute pid_test_controller 0 50000)) 0 50000) = 0"
    by (simp only: pid_compute_again fst_conv)
  moreover have "fst (pid_compute pid_test_controller 0 50000) = 100"
    by (simp only: pid_test_first fst_conv)
  ultimately show ?thesis by simp
qed

text \<open>
  Claim C3, amended. When \<^verbatim>\<open>pid_compute\<close> is called a second time at the counter value
  of the first call, the second call returns \<open>0.0\<close>, whatever the first returned and
  whatever its input, and leaves the whole controller, \<^verbatim>\<open>integral_sum\<close> and
  \<^verbatim>\<open>last_input\<close> among it, as the first call left it.
\<close>

theorem pid_compute_same_time_noop:
  "fst (pid_compute (snd (pid_compute pid input now)) input' now) = 0 \<and>
   snd (pid_compute (snd (pid_compute pid input now)) input' now) =
     snd (pid_compute pid input now) \<and>
   integral_sum (snd (pid_compute (snd (pid_compute pid input now)) input' now)) =
     integral_sum (snd (pid_compute pid input now)) \<and>
   last_input (snd (pid_compute (snd (pid_compute pid input now)) input' now)) =
     last_input (snd (pid_compute pid input now))"
  by (simp only: pid_compute_again fst_conv snd_conv simp_thms)

subsection \<open>The controller without integral gain\<close>

lemma pid_compute_ki0:
  assumes i: "initialized pid" and k: "ki pid = 0" and d: "0 < pid_dt now (last_time pid)"
  shows "fst (pid_compute pid input now) =
    (let raw = kp pid * (setpoint pid - input) -
               kd pid * (input - last_input pid) / pid_dt now (last_time pid)
     in if raw > output_max pid then output_max pid
        else if raw < output_min pid then output_min pid else raw)"
  using i k d by (simp add: pid_compute_def Let_def not_le split: prod.splits)

lemma clamp_saturate:
  "lo \<le> hi \<Longrightarrow> (if x > hi then hi else if x < lo then lo else x) = clamp x lo hi"
  by (simp add: clamp_def)

text \<open>
  Claim C7. For an initialised controller with \<open>ki = 0\<close> and a positive elapsed time, the
  output of \<^verbatim>\<open>pid_compute\<close> is \<open>kp \<cdot> (setpoint - input) - kd \<cdot> (input - last_input) / dt\<close>
  saturated at the output limits, the upper limit tested first; with the limits in order,
  \<open>output_min \<le> output_max\<close>, that is this value clamped to the interval of the limits.
\<close>

theorem pid_compute_ki_zero_clamp:
  "initialized pid \<and> ki pid = 0 \<and> 0 < pid_dt now (last_time pid) \<longrightarrow>
   (let raw = kp pid * (setpoint pid - input) -
              kd pid * (input - last_input pid) / pid_dt now (last_time pid)
    in fst (pid_compute pid input now) =
         (if raw > output_max pid then output_max pid
          else if raw < output_min pid then output_min pid else raw) \<and>
       (output_min pid \<le> output_max pid \<longrightarrow>
          fst (pid_compute pid input now) = clamp raw (output_min pid) (output_max pid)))"
  using pid_compute_ki0 [of pid now input] clamp_saturate by (simp add: Let_def)

lemma pd_controller_fields:
  "initialized pd_controller" "ki pd_controller = 0" "last_time pd_controller = 0"
  "kp pd_controller = 2" "kd pd_controller = 2 / 10" "setpoint pd_controller = 10"
  "last_input pd_controller = 0" "output_min pd_controller = - 50"
  "output_max pd_controller = 50"
  by (simp_all add: pd_controller_def pid_init_def pid_set_setpoint_def)

lemma pd_controller_dt: "pid_dt 50000 0 = 5 / 100"
  by (simp add: pid_dt_def)

text \<open>
  Fifty milliseconds after its start the controller, with setpoint \<open>10\<close>, answers the
  input \<open>4\<close> with \<open>2 \<cdot> 6 - 0.2 \<cdot> 4 / 0.05 = -4\<close> and the input \<open>-30\<close> with its upper
  limit \<open>50\<close>.
\<close>

theorem pid_compute_ki_zero_clamp_witness:
  "initialized pd_controller \<and> ki pd_controller = 0 \<and>
   0 < pid_dt 50000 (last_time pd_controller) \<and>
   output_min pd_controller \<le> output_max pd_controller \<and>
   fst (pid_compute pd_controller 4 50000) = - 4 \<and>
   fst (pid_compute pd_controller (- 30) 50000) = 50"
  using pid_compute_ki_zero_clamp [of pd_controller 50000 4]
    pid_compute_ki_zero_clamp [of pd_controller 50000 "- 30"]
  by (simp add: pd_controller_fields pd_controller_dt clamp_def Let_def)

subsection \<open>One pass of the loop\<close>

lemma process_command_STOP:
  "process_command s ''STOP'' now =
     Returns (s\<lparr>navigation_active := False,
                motor_calls := motor_calls s @ [Motors_stop_all],
                bt_sent := bt_sent s @ [Navigation_stopped]\<rparr>)"
  by (simp add: process_command_def)

lemma navigation_control_skip:
  "\<not> (navigation_active s \<and> fix_valid gps_data \<and> gps_has_target (target_data s)) \<Longrightarrow>
   navigation_control s gps_data heading now = Returns s"
  by (auto simp: navigation_control_def)

lemma status_report_frame:
  "motor_calls (status_report s g h) = motor_calls s"
  "target_data (status_report s g h) = target_data s"
  "navigation_active (status_report s g h) = navigation_active s"
  "heading_pid (status_report s g h) = heading_pid s"
  "speed_pid_a (status_report s g h) = speed_pid_a s"
  "speed_pid_b (status_report s g h) = speed_pid_b s"
  "current_gps_data (status_report s g h) = current_gps_data s"
  "mag (status_report s g h) = mag s"
  by (simp_all add: status_report_def Let_def)

lemma read_sensors_frame:
  "motor_calls (snd (read_sensors s inp)) = motor_calls s"
  "target_data (snd (read_sensors s inp)) = target_data s"
  "navigation_active (snd (read_sensors s inp)) = navigation_active s"
  "heading_pid (snd (read_sensors s inp)) = heading_pid s"
  "speed_pid_a (snd (read_sensors s inp)) = speed_pid_a s"
  "speed_pid_b (snd (read_sensors s inp)) = speed_pid_b s"
  "bt_sent (snd (read_sensors s inp)) = bt_sent s"
  "current_gps_data (snd (read_sensors s inp)) = gps_after_update inp"
  by (simp_all add: read_sensors_def split: prod.splits)

lemma status_report_sent:
  "\<exists>rest. bt_sent (status_report s g h) = bt_sent s @ rest \<and> length rest \<le> 1 \<and>
          (loop_counter s + 1 < 20 \<longrightarrow> rest = [])"
  by (simp add: status_report_def Let_def)

lemma read_sensors_loop_counter:
  "loop_counter (snd (read_sensors s inp)) = loop_counter s"
  by (simp add: read_sensors_def split: prod.splits)

lemma read_sensors_quiet:
  "read_sensors s (quiet_input\<lparr>bt_line := b\<rparr>) =
     (filtered_heading (mag s), s\<lparr>current_gps_data := no_fix\<rparr>)"
  by (simp add: read_sensors_def quiet_input_def magnetometer_get_filtered_heading_def
      magnetometer_read_raw_def)

lemma integration_tick_unfold:
  "integration_tick s inp =
     and_then (poll_command (snd (read_sensors s inp)) inp) (\<lambda>s2.
       and_then (navigation_control s2 (gps_after_update inp) (fst (read_sensors s inp))
                   (time_compute inp)) (\<lambda>s3.
         Returns (status_report s3 (gps_after_update inp) (fst (read_sensors s inp)))))"
proof -
  obtain h s1 where r: "read_sensors s inp = (h, s1)" by (cases "read_sensors s inp")
  have "current_gps_data s1 = gps_after_update inp"
    using read_sensors_frame(8) [of s inp] r by simp
  then show ?thesis by (simp add: integration_tick_def r Let_def)
qed

text \<open>The line \<^verbatim>\<open>10,20\<close> is a valid target, and it takes the robot from its start to
  \<^const>\<open>navigating_robot\<close>.\<close>

lemmas atof_defs =
  atof_def read_sign_def isspace_def isdigit_def isxdigit_def digits_value_def xdigit_value_def
  xdigits_value_def read_mantissa_def read_exponent_def scale_def is_inf_or_nan_def
  hex_constant_def decimal_constant_def

lemma atof_10_20: "atof ''10'' = Some 10" "atof ''20'' = Some 20"
  by (simp_all add: atof_defs)

lemma parse_10_20: "bluetooth_parse_coordinates ''10,20'' = Returns (True, Some (10, 20))"
  by (simp add: bluetooth_parse_coordinates_def atof_10_20)

lemma navigating_robot_reached:
  "integration_tick (integration_start 0 0 0) (quiet_input\<lparr>bt_line := Some ''10,20''\<rparr>) =
     Returns navigating_robot"
  apply (simp add: integration_tick_def read_sensors_quiet)
  apply (simp add: poll_command_def process_command_def parse_10_20 and_then_def
      navigation_control_def quiet_input_def no_fix_def status_report_def integration_start_def
      navigating_robot_def gps_set_target_def target_at_def)
  done

text \<open>
  Claim C1, as stated, fails in its last part. The robot that navigates to the target
  \<open>(10, 20)\<close> receives \<^verbatim>\<open>STOP\<close>: the pass ends with navigation off and the motors
  stopped, and \<^verbatim>\<open>gps_has_target()\<close> still returns true.
\<close>

theorem stop_command_counterexample:
  "integration_tick navigating_robot (quiet_input\<lparr>bt_line := Some ''STOP''\<rparr>) =
     Returns (navigating_robot\<lparr>current_gps_data := no_fix, navigation_active := False,
        motor_calls := [Motors_stop_all],
        bt_sent := [Target_established, Navigation_stopped], loop_counter := 2\<rparr>) \<and>
   gps_has_target (target_data (navigating_robot\<lparr>current_gps_data := no_fix,
        navigation_active := False, motor_calls := [Motors_stop_all],
        bt_sent := [Target_established, Navigation_stopped], loop_counter := 2\<rparr>))"
  apply (simp add: integration_tick_def read_sensors_quiet)
  apply (simp add: poll_command_def process_command_def and_then_def
      navigation_control_def quiet_input_def no_fix_def status_report_def integration_start_def
      navigating_robot_def gps_has_target_def target_at_def)
  done

text \<open>
  Claim C1, amended. A pass that receives \<^verbatim>\<open>STOP\<close>, in any state, ends with
  \<^verbatim>\<open>navigation_active\<close> false; its one call to the motors is \<^verbatim>\<open>motors_stop_all()\<close>,
  made at once; it sends the notice that navigation has stopped, the first message of
  the pass, which at most the periodic report follows (none before the twentieth pass
  of its period); the target is left as it was, so \<^verbatim>\<open>gps_has_target()\<close> returns what
  it returned before; and the heading controller is not touched. What stops the
  navigation is the flag, not the target.
\<close>

theorem stop_command_keeps_target:
  "bt_line inp = Some ''STOP'' \<longrightarrow>
   (\<exists>s' rest. integration_tick s inp = Returns s' \<and>
      \<not> navigation_active s' \<and>
      motor_calls s' = motor_calls s @ [Motors_stop_all] \<and>
      bt_sent s' = bt_sent s @ Navigation_stopped # rest \<and>
      length rest \<le> 1 \<and> (loop_counter s + 1 < 20 \<longrightarrow> rest = []) \<and>
      target_data s' = target_data s \<and>
      gps_has_target (target_data s') = gps_has_target (target_data s) \<and>
      heading_pid s' = heading_pid s)"
proof
  assume b: "bt_line inp = Some ''STOP''"
  let ?s1 = "snd (read_sensors s inp)"
  let ?s2 = "?s1\<lparr>navigation_active := False,
                motor_calls := motor_calls ?s1 @ [Motors_stop_all],
                bt_sent := bt_sent ?s1 @ [Navigation_stopped]\<rparr>"
  let ?s3 = "status_report ?s2 (gps_after_update inp) (fst (read_sensors s inp))"
  have p: "poll_command ?s1 inp = Returns ?s2"
    using b by (simp add: poll_command_def process_command_STOP)
  have n: "navigation_control ?s2 (gps_after_update inp) (fst (read_sensors s inp))
             (time_compute inp) = Returns ?s2"
    by (rule navigation_control_skip) simp
  have t: "integration_tick s inp = Returns ?s3"
    by (simp only: integration_tick_unfold p n and_then_def c_outcome.case)
  obtain rest where r: "bt_sent ?s3 = bt_sent ?s2 @ rest" "length rest \<le> 1"
      "loop_counter ?s2 + 1 < 20 \<longrightarrow> rest = []"
    using status_report_sent [of ?s2 "gps_after_update inp" "fst (read_sensors s inp)"] by blast
  have sent: "bt_sent ?s3 = bt_sent s @ Navigation_stopped # rest"
    using r(1) by (simp add: read_sensors_frame)
  have quiet: "loop_counter s + 1 < 20 \<longrightarrow> rest = []"
    using r(3) by (simp add: read_sensors_loop_counter)
  have frame: "\<not> navigation_active ?s3"
    "motor_calls ?s3 = motor_calls s @ [Motors_stop_all]"
    "target_data ?s3 = target_data s"
    "heading_pid ?s3 = heading_pid s"
    by (simp_all add: status_report_frame read_sensors_frame)
  show "\<exists>s' rest. integration_tick s inp = Returns s' \<and>
      \<not> navigation_active s' \<and>
      motor_calls s' = motor_calls s @ [Motors_stop_all] \<and>
      bt_sent s' = bt_sent s @ Navigation_stopped # rest \<and>
      length rest \<le> 1 \<and> (loop_counter s + 1 < 20 \<longrightarrow> rest = []) \<and>
      target_data s' = target_data s \<and>
      gps_has_target (target_data s') = gps_has_target (target_data s) \<and>
      heading_pid s' = heading_pid s"
    using t sent r(2) quiet frame by (intro exI [of _ ?s3] exI [of _ rest]) simp
qed

text \<open>
  The robot that drives towards \<open>(10, 20)\<close> receives \<^verbatim>\<open>STOP\<close> in the second pass of a
  report period: the motors are stopped, the notice is the one message sent, and the
  target stays.
\<close>

theorem stop_command_keeps_target_witness:
  "bt_line (quiet_input\<lparr>bt_line := Some ''STOP''\<rparr>) = Some ''STOP'' \<and>
   (\<exists>s'. integration_tick driving_robot (quiet_input\<lparr>bt_line := Some ''STOP''\<rparr>) = Returns s' \<and>
      \<not> navigation_active s' \<and>
      motor_calls s' = [Motors_set_both_motors MOTOR_FORWARD 180 MOTOR_FORWARD 190,
                        Motors_stop_all] \<and>
      bt_sent s' = [Target_established, Navigation_stopped] \<and>
      target_data s' = target_at 10 20 \<and>
      gps_has_target (target_data s'))"
proof -
  have f: "motor_calls driving_robot = [Motors_set_both_motors MOTOR_FORWARD 180 MOTOR_FORWARD 190]"
    "target_data driving_robot = target_at 10 20"
    "bt_sent driving_robot = [Target_established]"
    "loop_counter driving_robot = 1"
    by (simp_all add: driving_robot_def navigating_robot_def integration_start_def)
  have g: "gps_has_target (target_at 10 20)" by (simp add: gps_has_target_def target_at_def)
  have b: "bt_line (quiet_input\<lparr>bt_line := Some ''STOP''\<rparr>) = Some ''STOP''" by simp
  from stop_command_keeps_target [of "quiet_input\<lparr>bt_line := Some ''STOP''\<rparr>" driving_robot] b
  show ?thesis unfolding f using g by auto
qed

lemma poll_command_navigating:
  assumes "poll_command s1 inp = Returns s2" and "navigation_active s2"
  shows "motor_calls s2 = motor_calls s1"
proof (cases "bt_line inp")
  case None
  then show ?thesis using assms by (simp add: poll_command_def)
next
  case (Some line)
  show ?thesis
  proof (cases "line = ''STOP''")
    case True
    then show ?thesis using assms Some by (auto simp: poll_command_def process_command_STOP)
  next
    case False
    then show ?thesis using assms Some
      by (auto simp: poll_command_def process_command_def and_then_def
          split: c_outcome.splits option.splits if_splits)
  qed
qed

text \<open>
  Claim C5. Without a valid fix the navigation block of a pass does nothing at all. So in
  every pass in which the loop navigates once the commands are handled
  (\<^verbatim>\<open>navigation_active\<close> holds after them) and the receiver has no valid fix, no call
  goes to the motors, whose last command stays in effect, and neither the controllers
  nor the target change after the commands. In a pass without a command nothing of them
  changes at all.
\<close>

theorem no_fix_holds_motor_command:
  "(\<not> fix_valid gps_data \<longrightarrow> navigation_control s2 gps_data heading now = Returns s2) \<and>
   (\<not> fix_valid (gps_after_update inp) \<and>
    poll_command (snd (read_sensors s inp)) inp = Returns s2 \<and> navigation_active s2 \<longrightarrow>
      (\<exists>s'. integration_tick s inp = Returns s' \<and>
         navigation_active s' \<and>
         motor_calls s' = motor_calls s \<and>
         heading_pid s' = heading_pid s2 \<and>
         speed_pid_a s' = speed_pid_a s2 \<and>
         speed_pid_b s' = speed_pid_b s2 \<and>
         target_data s' = target_data s2)) \<and>
   (\<not> fix_valid (gps_after_update inp) \<and> bt_line inp = None \<longrightarrow>
      (\<exists>s'. integration_tick s inp = Returns s' \<and>
         navigation_active s' = navigation_active s \<and>
         motor_calls s' = motor_calls s \<and>
         heading_pid s' = heading_pid s \<and>
         speed_pid_a s' = speed_pid_a s \<and>
         speed_pid_b s' = speed_pid_b s \<and>
         target_data s' = target_data s))"
proof (intro conjI impI)
  show "navigation_control s2 gps_data heading now = Returns s2" if "\<not> fix_valid gps_data"
    using that by (simp add: navigation_control_skip)
next
  assume h: "\<not> fix_valid (gps_after_update inp) \<and>
    poll_command (snd (read_sensors s inp)) inp = Returns s2 \<and> navigation_active s2"
  then have n: "navigation_control s2 (gps_after_update inp) (fst (read_sensors s inp))
             (time_compute inp) = Returns s2"
    by (simp add: navigation_control_skip)
  have t: "integration_tick s inp =
     Returns (status_report s2 (gps_after_update inp) (fst (read_sensors s inp)))"
    using h by (simp only: integration_tick_unfold n and_then_def c_outcome.case)
  have m: "motor_calls s2 = motor_calls s"
    using poll_command_navigating [of "snd (read_sensors s inp)" inp s2] h
    by (simp add: read_sensors_frame)
  show "\<exists>s'. integration_tick s inp = Returns s' \<and>
         navigation_active s' \<and>
         motor_calls s' = motor_calls s \<and>
         heading_pid s' = heading_pid s2 \<and>
         speed_pid_a s' = speed_pid_a s2 \<and>
         speed_pid_b s' = speed_pid_b s2 \<and>
         target_data s' = target_data s2"
    unfolding t using h m by (simp add: status_report_frame)
next
  assume h: "\<not> fix_valid (gps_after_update inp) \<and> bt_line inp = None"
  let ?s1 = "snd (read_sensors s inp)"
  have p: "poll_command ?s1 inp = Returns ?s1" using h by (simp add: poll_command_def)
  have n: "navigation_control ?s1 (gps_after_update inp) (fst (read_sensors s inp))
             (time_compute inp) = Returns ?s1"
    using h by (simp add: navigation_control_skip)
  have t: "integration_tick s inp =
     Returns (status_report ?s1 (gps_after_update inp) (fst (read_sensors s inp)))"
    by (simp only: integration_tick_unfold p n and_then_def c_outcome.case)
  show "\<exists>s'. integration_tick s inp = Returns s' \<and>
         navigation_active s' = navigation_active s \<and>
         motor_calls s' = motor_calls s \<and>
         heading_pid s' = heading_pid s \<and>
         speed_pid_a s' = speed_pid_a s \<and>
         speed_pid_b s' = speed_pid_b s \<and>
         target_data s' = target_data s"
    unfolding t by (simp add: status_report_frame read_sensors_frame)
qed

lemma driving_robot_fields:
  "navigation_active driving_robot"
  "motor_calls driving_robot = [Motors_set_both_motors MOTOR_FORWARD 180 MOTOR_FORWARD 190]"
  "target_data driving_robot = target_at 10 20"
  "heading_pid driving_robot = pid_reset (pid_init KP_DIR KI_DIR KD_DIR (- 50) 50 0) 1000"
  by (simp_all add: driving_robot_def navigating_robot_def integration_start_def)

text \<open>
  The robot that drives towards \<open>(10, 20)\<close> loses its fix: after the pass it still
  navigates, and the one command the motors have had is the one they keep.
\<close>

theorem no_fix_holds_motor_command_witness:
  "navigation_active driving_robot \<and> \<not> fix_valid (gps_after_update quiet_input) \<and>
   bt_line quiet_input = None \<and>
   (\<exists>s'. integration_tick driving_robot quiet_input = Returns s' \<and>
      navigation_active s' \<and>
      motor_calls s' = [Motors_set_both_motors MOTOR_FORWARD 180 MOTOR_FORWARD 190] \<and>
      heading_pid s' = heading_pid driving_robot \<and>
      target_data s' = target_at 10 20)"
proof -
  have q: "\<not> fix_valid (gps_after_update quiet_input)" "bt_line quiet_input = None"
    by (simp_all add: quiet_input_def no_fix_def)
  from no_fix_holds_motor_command [of no_fix driving_robot 0 0 quiet_input driving_robot] q
  show ?thesis by (auto simp: driving_robot_fields)
qed

text \<open>
  Claim C9. Whenever the fix is not valid or no target is set,
  \<^verbatim>\<open>gps_distance_to_target\<close> returns \<open>0.0\<close> and therefore \<^verbatim>\<open>gps_target_reached\<close> returns
  true, wherever the target is. The loop asks for the arrival only behind its guard: when
  navigation is off, the fix is not valid or no target is set, the navigation block does
  nothing.
\<close>

theorem no_fix_or_target_distance_zero:
  "(\<not> fix_valid g \<or> \<not> target_set t \<longrightarrow>
      gps_distance_to_target g t = 0 \<and> gps_target_reached g t) \<and>
   (\<not> (navigation_active s \<and> fix_valid gps_data \<and> gps_has_target (target_data s)) \<longrightarrow>
      navigation_control s gps_data heading now = Returns s)"
  by (simp add: gps_distance_to_target_def gps_target_reached_def navigation_control_skip)

theorem no_fix_or_target_distance_zero_witness:
  "\<not> fix_valid no_fix \<and> target_set (target_at 10 20) \<and>
   gps_distance_to_target no_fix (target_at 10 20) = 0 \<and>
   gps_target_reached no_fix (target_at 10 20) \<and>
   navigation_control navigating_robot no_fix 0 0 = Returns navigating_robot"
  using no_fix_or_target_distance_zero [of no_fix "target_at 10 20" navigating_robot no_fix 0 0]
  by (simp add: no_fix_def target_at_def)

subsection \<open>The coordinates of a command line\<close>

lemma atof_no_conversion: "atof ''abc'' = Some 0" "atof ''def'' = Some 0"
  by (simp_all add: atof_defs)

text \<open>
  Claim C4 does not hold of the code. \<^verbatim>\<open>atof\<close> cannot report a field that is no number:
  it returns \<open>0.0\<close>, which is in range. The line \<^verbatim>\<open>abc,def\<close> is accepted as the
  coordinates \<open>(0, 0)\<close>, and the loop makes them its target and starts to navigate.
\<close>

theorem non_numeric_coordinates_accepted:
  "bluetooth_parse_coordinates ''abc,def'' = Returns (True, Some (0, 0)) \<and>
   process_command s ''abc,def'' now =
     Returns (s\<lparr>target_data := gps_set_target (target_data s) 0 0,
                navigation_active := True,
                heading_pid := pid_reset (heading_pid s) now,
                bt_sent := bt_sent s @ [Target_established]\<rparr>)"
proof -
  have p: "bluetooth_parse_coordinates ''abc,def'' = Returns (True, Some (0, 0))"
    by (simp add: bluetooth_parse_coordinates_def atof_no_conversion)
  show ?thesis by (simp add: p process_command_def and_then_def)
qed

subsection \<open>The heading filter\<close>

text \<open>Bounds of \<open>\<pi>\<close> and of the arc tangent, from the series of the sine.\<close>

lemma sin_upper_5: "sin x \<le> x - x ^ 3 / 6 + \<bar>x\<bar> ^ 5 / 120" for x :: real
proof -
  have s: "(\<Sum>m<5. sin_coeff m * x ^ m) = x - x ^ 3 / 6"
    by (simp add: eval_nat_numeral sin_coeff_Suc cos_coeff_Suc)
  have "\<bar>sin x - (\<Sum>m<5. sin_coeff m * x ^ m)\<bar> \<le> inverse (fact 5) * \<bar>x\<bar> ^ 5"
    by (rule Maclaurin_sin_bound)
  then have "sin x - (x - x ^ 3 / 6) \<le> inverse (fact 5) * \<bar>x\<bar> ^ 5"
    unfolding s by linarith
  moreover have "inverse (fact 5 :: real) = 1 / 120" by (simp add: eval_nat_numeral)
  ultimately show ?thesis by simp
qed

lemma sin_lower_3: "x - \<bar>x\<bar> ^ 3 / 6 \<le> sin x" for x :: real
proof -
  have s: "(\<Sum>m<3. sin_coeff m * x ^ m) = x"
    by (simp add: eval_nat_numeral sin_coeff_Suc cos_coeff_Suc)
  have "\<bar>sin x - (\<Sum>m<3. sin_coeff m * x ^ m)\<bar> \<le> inverse (fact 3) * \<bar>x\<bar> ^ 3"
    by (rule Maclaurin_sin_bound)
  then have "- (inverse (fact 3) * \<bar>x\<bar> ^ 3) \<le> sin x - x"
    unfolding s by linarith
  moreover have "inverse (fact 3 :: real) = 1 / 6" by (simp add: eval_nat_numeral)
  ultimately show ?thesis by simp
qed

lemma pi_ge_3: "3 \<le> pi"
proof -
  have "sin (pi / 6) \<le> pi / 6" by (rule sin_x_le_x) simp
  then show ?thesis by (simp add: sin_30)
qed

lemma pi_gt_31: "31 / 10 < pi"
proof (rule ccontr)
  assume "\<not> 31 / 10 < pi"
  then have u: "pi / 6 \<le> 31 / 60" by simp
  have l: "1 / 2 \<le> pi / 6" using pi_ge_3 by simp
  have p: "0 \<le> pi / 6" by simp
  have c: "(1 / 2) ^ 3 \<le> (pi / 6) ^ 3" using l by (intro power_mono) simp_all
  have f: "(pi / 6) ^ 5 \<le> (31 / 60) ^ 5" using u p by (intro power_mono)
  have "1 / 2 \<le> pi / 6 - (pi / 6) ^ 3 / 6 + \<bar>pi / 6\<bar> ^ 5 / 120"
    using sin_upper_5 [of "pi / 6"] by (simp only: sin_30)
  also have "\<bar>pi / 6\<bar> = pi / 6" by simp
  finally have "1 / 2 \<le> pi / 6 - (pi / 6) ^ 3 / 6 + (pi / 6) ^ 5 / 120" .
  moreover have "(1 / 2 :: real) ^ 3 = 1 / 8" by (simp add: power3_eq_cube)
  moreover have "(31 / 60 :: real) ^ 5 < 4 / 100" by (simp add: eval_nat_numeral)
  ultimately show False using u c f by linarith
qed

lemma arctan_le_3x:
  assumes "0 \<le> x" shows "arctan x \<le> 3 * x"
proof -
  define y where "y = arctan x"
  have y0: "0 \<le> y" using assms by (simp add: y_def)
  have y2: "y < 2" using arctan_ubound [of x] pi_half_less_two by (simp add: y_def)
  have "sin y = x / sqrt (1 + x\<^sup>2)" by (simp add: y_def sin_arctan)
  also have "\<dots> \<le> x / 1"
    using assms by (intro divide_left_mono) (simp_all add: add_pos_nonneg)
  finally have sx: "sin y \<le> x" by simp
  have "y * y \<le> 2 * 2" using y0 y2 by (intro mult_mono) simp_all
  then have "y * y * y \<le> 4 * y" using y0 by (simp add: mult_right_mono)
  then have "\<bar>y\<bar> ^ 3 \<le> 4 * y" using y0 by (simp add: power3_eq_cube)
  then have "y - 4 * y / 6 \<le> sin y" using sin_lower_3 [of y] by linarith
  then show ?thesis using sx by (simp add: y_def)
qed


lemma atan2_bounds: "- pi < atan2 y x \<and> atan2 y x \<le> pi"
proof -
  have b: "- (pi / 2) < arctan (y / x)" "arctan (y / x) < pi / 2"
    by (rule arctan_lbound, rule arctan_ubound)
  have p: "0 < pi" by simp
  consider "0 < x" | "x < 0" "0 \<le> y" | "x < 0" "y < 0" | "x = 0" by linarith
  then show ?thesis
  proof cases
    case 1
    then show ?thesis using b p by (simp add: atan2_def; linarith)
  next
    case 2
    then have "y / x \<le> 0" by (simp add: divide_nonneg_neg)
    then have "arctan (y / x) \<le> 0" by simp
    then show ?thesis using 2 b p by (simp add: atan2_def; linarith)
  next
    case 3
    then have "0 < y / x" by (simp add: divide_neg_neg)
    then have "0 < arctan (y / x)" by simp
    then show ?thesis using 3 b p by (simp add: atan2_def; linarith)
  next
    case 4
    then show ?thesis using p by (simp add: atan2_def; linarith)
  qed
qed

lemma seam_read:
  "magnetometer_read_raw seam_magnetometer (Some seam_sample) = Some (- 1000, - 1, 0)"
  by (simp add: magnetometer_read_raw_def seam_magnetometer_def seam_sample_def assemble16_def)

lemma seam_sint: "sint (- 1000 :: 16 word) = - 1000" "sint (- 1 :: 16 word) = - 1"
  by simp_all

lemma seam_atan2: "atan2 (- 1) (- 1000) = arctan (1 / 1000) - pi"
  by (simp add: atan2_def)

lemma seam_atan2_bounds:
  "- 4 < atan2 (- 1) (- 1000)" "atan2 (- 1) (- 1000) < - 3097 / 1000"
proof -
  have a: "arctan (1 / 1000) \<le> 3 / 1000" using arctan_le_3x [of "1 / 1000"] by simp
  have b: "0 < arctan (1 / 1000 :: real)" by simp
  show "- 4 < atan2 (- 1) (- 1000)" using b pi_less_4 unfolding seam_atan2 by linarith
  show "atan2 (- 1) (- 1000) < - 3097 / 1000" using a pi_gt_31 unfolding seam_atan2 by linarith
qed

lemma seam_fields:
  "filtered_heading seam_magnetometer = 350" "declination_angle seam_magnetometer = 404 / 10000"
  by (simp_all add: seam_magnetometer_def magnetometer_start_def)

lemma seam_heading:
  "magnetometer_calculate_heading seam_magnetometer (- 1000) (- 1) =
     atan2 (- 1) (- 1000) * 180 + 7272 / 1000 + 360"
proof -
  have "atan2 (- 1) (- 1000) * 180 + 404 / 10000 * 180 < 0"
    using seam_atan2_bounds by linarith
  then show ?thesis
    by (simp add: magnetometer_calculate_heading_def seam_fields Let_def)
qed

lemma filter_step_wrapped_low:
  assumes "magnetometer_read_raw m bus = Some (x, y, z)"
    and "magnetometer_calculate_heading m x y = h"
    and "h - filtered_heading m < - 180"
    and "0 \<le> filtered_heading m + ALPHA * (h - filtered_heading m + 360)"
    and "filtered_heading m + ALPHA * (h - filtered_heading m + 360) < 360"
  shows "fst (magnetometer_get_filtered_heading m bus) =
     filtered_heading m + ALPHA * (h - filtered_heading m + 360)"
  using assms by (simp add: magnetometer_get_filtered_heading_def Let_def)

lemma seam_filtered:
  "fst (magnetometer_get_filtered_heading seam_magnetometer (Some seam_sample)) =
     350 + ALPHA * (atan2 (- 1) (- 1000) * 180 + 7272 / 1000 + 360 - 350 + 360)"
proof -
  define h where "h = atan2 (- 1) (- 1000) * 180 + 7272 / 1000 + 360"
  have h: "h - 350 < - 180"
    using seam_atan2_bounds unfolding h_def by linarith
  have g: "0 \<le> 350 + ALPHA * (h - 350 + 360)" "350 + ALPHA * (h - 350 + 360) < 360"
    using seam_atan2_bounds unfolding h_def ALPHA_def by (simp_all add: algebra_simps)
  have "fst (magnetometer_get_filtered_heading seam_magnetometer (Some seam_sample)) =
     filtered_heading seam_magnetometer + ALPHA * (h - filtered_heading seam_magnetometer + 360)"
  proof (rule filter_step_wrapped_low)
    show "magnetometer_read_raw seam_magnetometer (Some seam_sample) = Some (- 1000, - 1, 0)"
      by (rule seam_read)
    show "magnetometer_calculate_heading seam_magnetometer (- 1000) (- 1) = h"
      unfolding h_def by (rule seam_heading)
  qed (simp_all only: seam_fields h g)
  then show ?thesis by (simp only: seam_fields h_def)
qed

text \<open>
  Claim C2 does not hold of the code. From a filtered heading of \<open>350\<close> degrees, the
  samples \<open>x = -1000\<close>, \<open>y = -1\<close> give \<open>atan2(y, x)\<close> just above \<open>-\<pi>\<close>; multiplied by
  \<open>180\<close> and not divided by \<open>\<pi>\<close>, it is a "heading" near \<open>-558\<close>, which one turn brings
  to \<open>-198\<close> only. The difference to \<open>350\<close>, folded once, is near \<open>-188\<close>, beyond
  \<open>-180\<close>, and the filtered heading moves by more than \<open>\<alpha> \<cdot> 180 = 108\<close> degrees along the
  shorter arc. The value returned is still in \<open>[0, 360)\<close>.
\<close>

theorem filtered_heading_jump_exceeds_bound:
  "0 \<le> filtered_heading seam_magnetometer \<and> filtered_heading seam_magnetometer < 360 \<and>
   magnetometer_read_raw seam_magnetometer (Some seam_sample) = Some (- 1000, - 1, 0) \<and>
   0 \<le> fst (magnetometer_get_filtered_heading seam_magnetometer (Some seam_sample)) \<and>
   fst (magnetometer_get_filtered_heading seam_magnetometer (Some seam_sample)) < 360 \<and>
   ALPHA * 180 = 108 \<and>
   108 < arc_distance (filtered_heading seam_magnetometer)
           (fst (magnetometer_get_filtered_heading seam_magnetometer (Some seam_sample)))"
proof -
  have f: "filtered_heading seam_magnetometer = 350"
    by (simp add: seam_magnetometer_def magnetometer_start_def)
  have a: "ALPHA * 180 = 108" by (simp add: ALPHA_def)
  have 1: "0 \<le> 350 + ALPHA * (atan2 (- 1) (- 1000) * 180 + 7272 / 1000 + 360 - 350 + 360)"
    using seam_atan2_bounds unfolding ALPHA_def by (simp add: algebra_simps)
  have 2: "350 + ALPHA * (atan2 (- 1) (- 1000) * 180 + 7272 / 1000 + 360 - 350 + 360) < 360"
    using seam_atan2_bounds unfolding ALPHA_def by (simp add: algebra_simps)
  have 3: "108 < arc_distance 350
      (350 + ALPHA * (atan2 (- 1) (- 1000) * 180 + 7272 / 1000 + 360 - 350 + 360))"
    using seam_atan2_bounds unfolding ALPHA_def arc_distance_def by (simp add: algebra_simps)
  show ?thesis
    unfolding seam_filtered f using 1 2 3 a seam_read by (intro conjI) simp_all
qed


lemma calculate_heading_bounds:
  assumes "\<bar>declination_angle m\<bar> \<le> 1 / 2"
  shows "- 450 < magnetometer_calculate_heading m x y"
    and "magnetometer_calculate_heading m x y < 450"
proof -
  define a where "a = atan2 (real_of_int (sint y)) (real_of_int (sint x))"
  have a: "- 4 < a" "a < 4" using atan2_bounds [of "real_of_int (sint y)" "real_of_int (sint x)"]
      pi_less_4 unfolding a_def by linarith+
  have d: "- (1 / 2) \<le> declination_angle m" "declination_angle m \<le> 1 / 2"
    using assms by linarith+
  have e: "magnetometer_calculate_heading m x y =
     (if a * 180 + declination_angle m * 180 < 0 then a * 180 + declination_angle m * 180 + 360
      else if a * 180 + declination_angle m * 180 \<ge> 360
        then a * 180 + declination_angle m * 180 - 360
      else a * 180 + declination_angle m * 180)"
    by (simp add: magnetometer_calculate_heading_def Let_def a_def)
  show "- 450 < magnetometer_calculate_heading m x y" unfolding e using a d by auto
  show "magnetometer_calculate_heading m x y < 450" unfolding e using a d by auto
qed

lemma filter_range_step:
  assumes f: "0 \<le> f" "f < 360" and h: "- 450 < h" "h < 450"
  defines "d \<equiv> (if h - f > 180 then h - f - 360 else if h - f < - 180 then h - f + 360 else h - f)"
  defines "r \<equiv> f + ALPHA * d"
  shows "0 \<le> (if r < 0 then r + 360 else if r \<ge> 360 then r - 360 else r)"
    and "(if r < 0 then r + 360 else if r \<ge> 360 then r - 360 else r) < 360"
proof -
  have d: "- 450 < d" "d \<le> 180" unfolding d_def using f h by auto
  have r: "- 270 < r" "r < 468" unfolding r_def ALPHA_def using d f by (simp_all add: algebra_simps)
  show "0 \<le> (if r < 0 then r + 360 else if r \<ge> 360 then r - 360 else r)" using r by auto
  show "(if r < 0 then r + 360 else if r \<ge> 360 then r - 360 else r) < 360" using r by auto
qed

lemma filtered_heading_in_range:
  assumes "0 \<le> filtered_heading m" "filtered_heading m < 360"
    and "\<bar>declination_angle m\<bar> \<le> 1 / 2"
  shows "0 \<le> fst (magnetometer_get_filtered_heading m bus)"
    and "fst (magnetometer_get_filtered_heading m bus) < 360"
    and "filtered_heading (snd (magnetometer_get_filtered_heading m bus)) =
         fst (magnetometer_get_filtered_heading m bus)"
    and "declination_angle (snd (magnetometer_get_filtered_heading m bus)) = declination_angle m"
proof -
  show "filtered_heading (snd (magnetometer_get_filtered_heading m bus)) =
         fst (magnetometer_get_filtered_heading m bus)"
    by (simp add: magnetometer_get_filtered_heading_def Let_def split: option.splits prod.splits)
  show "declination_angle (snd (magnetometer_get_filtered_heading m bus)) = declination_angle m"
    by (simp add: magnetometer_get_filtered_heading_def Let_def split: option.splits prod.splits)
  show "0 \<le> fst (magnetometer_get_filtered_heading m bus)"
  proof (cases "magnetometer_read_raw m bus")
    case None
    then show ?thesis using assms by (simp add: magnetometer_get_filtered_heading_def)
  next
    case (Some s)
    obtain x y z where s: "s = (x, y, z)" by (cases s)
    show ?thesis
      using filter_range_step(1) [OF assms(1,2) calculate_heading_bounds [OF assms(3), of x y]]
      by (simp add: magnetometer_get_filtered_heading_def Some s Let_def)
  qed
  show "fst (magnetometer_get_filtered_heading m bus) < 360"
  proof (cases "magnetometer_read_raw m bus")
    case None
    then show ?thesis using assms by (simp add: magnetometer_get_filtered_heading_def)
  next
    case (Some s)
    obtain x y z where s: "s = (x, y, z)" by (cases s)
    show ?thesis
      using filter_range_step(2) [OF assms(1,2) calculate_heading_bounds [OF assms(3), of x y]]
      by (simp add: magnetometer_get_filtered_heading_def Some s Let_def)
  qed
qed


text \<open>
  Over the real numbers the range is kept: started in \<open>[0, 360)\<close>, with a declination of
  at most half a radian in size, every heading that a sequence of calls returns is in
  \<open>[0, 360)\<close>, whatever the transfers deliver. (In double precision a sum just below
  \<open>0\<close> can round to \<open>360.0\<close> when a turn is added; that is outside this statement.)
\<close>

lemma filtered_headings_in_range:
  "0 \<le> filtered_heading m \<Longrightarrow> filtered_heading m < 360 \<Longrightarrow> \<bar>declination_angle m\<bar> \<le> 1 / 2 \<Longrightarrow>
   h \<in> set (filtered_headings m buses) \<Longrightarrow> 0 \<le> h \<and> h < 360"
proof (induction buses arbitrary: m)
  case Nil
  then show ?case by simp
next
  case (Cons bus rest)
  note r = filtered_heading_in_range [OF Cons.prems(1,2,3), of bus]
  show ?case
  proof (cases "h = fst (magnetometer_get_filtered_heading m bus)")
    case True
    then show ?thesis using r(1,2) by simp
  next
    case False
    then have "h \<in> set (filtered_headings (snd (magnetometer_get_filtered_heading m bus)) rest)"
      using Cons.prems(4) by simp
    moreover have "0 \<le> filtered_heading (snd (magnetometer_get_filtered_heading m bus))"
      "filtered_heading (snd (magnetometer_get_filtered_heading m bus)) < 360"
      "\<bar>declination_angle (snd (magnetometer_get_filtered_heading m bus))\<bar> \<le> 1 / 2"
      using r Cons.prems(3) by simp_all
    ultimately show ?thesis by (rule Cons.IH [rotated 3])
  qed
qed

end
